theory Spec2Isabelle
  imports Main
begin

section \<open>govip: the leadership-driven virtual IP controller (main.go)\<close>

text \<open>
  The program is one Go file. It talks to three outside parties: the kernel's address
  table (through the netlink library), the network (gratuitous ARP) and the coordination
  service (etcd sessions and elections). Every call to one of them, every log line and
  every process exit is appended to a trace, so that "how many times", "before" and
  "never" are statements about that trace. The kernel's address table is explicit
  state, passed through every function that touches it.
\<close>

subsection \<open>Data\<close>

type_synonym link = nat

text \<open>
  A \<open>netlink.Addr\<close>: the IP bytes, the size of the mask and the label. The library's
  \<open>Addr.Equal\<close> compares the IP and the mask size and ignores the label.
\<close>

record addr =
  IP :: "nat list"
  plen :: nat
  Label :: string

definition addr_Equal :: "addr \<Rightarrow> addr \<Rightarrow> bool" where
  "addr_Equal a x = (IP a = IP x \<and> plen a = plen x)"

text \<open>The command-line flags (the package-level variables of main.go).\<close>

record config =
  version :: bool
  prefix :: string
  member :: string
  vip :: string
  vif :: string
  etcdaddress :: string
  cafile :: string
  certfile :: string
  keyfile :: string

text \<open>The errors the libraries can return; \<open>context.Canceled\<close> is a campaign outcome below.\<close>

datatype error =
    ParseError | LinkError | ListError | AddError | DelError | ArpError
  | TLSError | ClientError | SessionError | CampaignError

datatype level = Debug | Info

datatype call =
    Log level string
  | NlParseAddr string
  | NlLinkByName string
  | NlAddrList link
  | NlAddrAdd link addr
  | NlAddrDel link addr
  | GratuitousArp "nat list" string
  | Sleep nat
  | Println string
  | TLSClientConfig
  | ClientNew string
  | NewSession
  | NewElection string
  | Campaign string
  | SessionClose
  | ClientClose
  | SignalNotify
  | TimeAfter nat
  | CtxCancel
  | CloseQuit
  | ExitSend nat
  | Fatal error
  | OsExit nat

text \<open>
  The kernel's network configuration: the interfaces by name, the address list of each
  interface, and whether the next enumeration, addition, removal or ARP transmission
  is going to fail.
\<close>

record kernel =
  links :: "string \<Rightarrow> link option"
  table :: "link \<Rightarrow> addr list"
  list_fails :: bool
  add_fails :: bool
  del_fails :: bool
  arp_fails :: bool

record world =
  net :: kernel
  trace :: "call list"

text \<open>
  What does not change while the process runs: the library's CIDR parser
  (\<open>netlink.ParseAddr\<close>, a pure function of the string) and whether loading the TLS
  material, creating the client and opening the session succeed.
\<close>

record env =
  ParseAddr :: "string \<Rightarrow> addr option"
  tls_ok :: bool
  client_ok :: bool
  session_ok :: bool

definition emit :: "call \<Rightarrow> world \<Rightarrow> world" where
  "emit c w = w\<lparr>trace := trace w @ [c]\<rparr>"

subsection \<open>The library calls\<close>

definition netlink_ParseAddr :: "env \<Rightarrow> string \<Rightarrow> world \<Rightarrow> addr option \<times> world" where
  "netlink_ParseAddr e s w = (ParseAddr e s, emit (NlParseAddr s) w)"

definition netlink_LinkByName :: "string \<Rightarrow> world \<Rightarrow> link option \<times> world" where
  "netlink_LinkByName n w = (links (net w) n, emit (NlLinkByName n) w)"

definition netlink_AddrList :: "link \<Rightarrow> world \<Rightarrow> addr list option \<times> world" where
  "netlink_AddrList l w =
     ((if list_fails (net w) then None else Some (table (net w) l)), emit (NlAddrList l) w)"

text \<open>
  Modelled from the spec: \<open>netlink.AddrAdd\<close> and \<open>netlink.AddrDel\<close> belong to the
  netlink library, which is not part of the repository. Section 4.2 says that ensure
  "adds the address to the interface" and release "removes the address", and that
  either can fail: a successful addition appends the address to the interface's list,
  a successful removal deletes every entry equal to it, a failed call changes nothing.
\<close>

definition netlink_AddrAdd :: "link \<Rightarrow> addr \<Rightarrow> world \<Rightarrow> error option \<times> world" where
  "netlink_AddrAdd l a w =
     (let w1 = emit (NlAddrAdd l a) w in
      if add_fails (net w) then (Some AddError, w1)
      else (None, w1\<lparr>net := (net w)\<lparr>table := (table (net w))(l := table (net w) l @ [a])\<rparr>\<rparr>))"

definition netlink_AddrDel :: "link \<Rightarrow> addr \<Rightarrow> world \<Rightarrow> error option \<times> world" where
  "netlink_AddrDel l a w =
     (let w1 = emit (NlAddrDel l a) w in
      if del_fails (net w) then (Some DelError, w1)
      else (None, w1\<lparr>net := (net w)\<lparr>table :=
              (table (net w))(l := filter (\<lambda>x. \<not> addr_Equal a x) (table (net w) l))\<rparr>\<rparr>))"

definition arping_GratuitousArpOverIfaceByName ::
    "nat list \<Rightarrow> string \<Rightarrow> world \<Rightarrow> error option \<times> world" where
  "arping_GratuitousArpOverIfaceByName ip n w =
     ((if arp_fails (net w) then Some ArpError else None), emit (GratuitousArp ip n) w)"

definition time_Sleep :: "nat \<Rightarrow> world \<Rightarrow> world" where
  "time_Sleep secs w = emit (Sleep secs) w"

subsection \<open>hasIP, releaseIP, ensureIP\<close>

text \<open>The \<open>range\<close> loop of hasIP: true at the first entry equal to the parsed address.\<close>

fun hasIP_range :: "addr \<Rightarrow> addr list \<Rightarrow> bool" where
  "hasIP_range vaddr [] = False"
| "hasIP_range vaddr (a # as) = (if addr_Equal vaddr a then True else hasIP_range vaddr as)"

text \<open>
  hasIP returns \<open>(false, nil, nil, err)\<close> on an error and \<open>(set, vaddr, vlink, nil)\<close>
  otherwise: a sum, with the error on the left. The source's flag \<open>set\<close> is called
  \<open>present\<close> below.
\<close>

definition hasIP :: "env \<Rightarrow> config \<Rightarrow> world \<Rightarrow> (error + bool \<times> addr \<times> link) \<times> world" where
  "hasIP e cfg w =
     (case netlink_ParseAddr e (vip cfg) w of
        (None, w1) \<Rightarrow> (Inl ParseError, w1)
      | (Some vaddr, w1) \<Rightarrow>
          (case netlink_LinkByName (vif cfg) w1 of
             (None, w2) \<Rightarrow> (Inl LinkError, w2)
           | (Some vlink, w2) \<Rightarrow>
               (case netlink_AddrList vlink w2 of
                  (None, w3) \<Rightarrow> (Inl ListError, w3)
                | (Some addrs, w3) \<Rightarrow> (Inr (hasIP_range vaddr addrs, vaddr, vlink), w3))))"

definition releaseIP :: "env \<Rightarrow> config \<Rightarrow> world \<Rightarrow> error option \<times> world" where
  "releaseIP e cfg w =
     (case hasIP e cfg (emit (Log Debug ''Releasing IP address'') w) of
        (Inl err, w1) \<Rightarrow> (Some err, w1)
      | (Inr (present, vaddr, vlink), w1) \<Rightarrow>
          if \<not> present then (None, emit (Log Debug ''IP address not found'') w1)
          else (case netlink_AddrDel vlink vaddr w1 of
                  (Some err, w2) \<Rightarrow> (Some err, w2)
                | (None, w2) \<Rightarrow> (None, emit (Log Info ''IP address released'') w2)))"

text \<open>
  The announcement loop of ensureIP, \<open>for i := 0; i < 5; i++\<close>: one gratuitous ARP,
  whose result is dropped, then a sleep of one second.
\<close>

function ensureIP_arps :: "config \<Rightarrow> addr \<Rightarrow> nat \<Rightarrow> world \<Rightarrow> world" where
  "ensureIP_arps cfg vaddr i w =
     (if i < 5
      then ensureIP_arps cfg vaddr (i + 1)
             (time_Sleep 1 (snd (arping_GratuitousArpOverIfaceByName (IP vaddr) (vif cfg) w)))
      else w)"
  by pat_completeness auto
termination
  by (relation "measure (\<lambda>(cfg, vaddr, i, w). 5 - i)") auto

declare ensureIP_arps.simps [simp del]

definition ensureIP :: "env \<Rightarrow> config \<Rightarrow> world \<Rightarrow> (bool \<times> error option) \<times> world" where
  "ensureIP e cfg w =
     (case hasIP e cfg (emit (Log Debug ''Ensuring IP address'') w) of
        (Inl err, w1) \<Rightarrow> ((False, Some err), w1)
      | (Inr (present, vaddr, vlink), w1) \<Rightarrow>
          if present then ((False, None), emit (Log Debug ''IP address already set'') w1)
          else (case netlink_AddrAdd vlink vaddr w1 of
                  (Some err, w2) \<Rightarrow> ((False, Some err), w2)
                | (None, w2) \<Rightarrow>
                    ((True, None),
                     ensureIP_arps cfg vaddr 0
                       (emit (Log Info ''IP address set, sending gratuitous ARPs'') w2))))"

subsection \<open>The process: main, the leadership goroutine, the signal goroutine\<close>

text \<open>
  The leadership goroutine is either at its \<open>select\<close>, or inside the blocking
  \<open>Campaign\<close> call, or has returned. \<open>defers\<close> counts the \<open>defer releaseIP()\<close>
  statements it has executed and not yet run. The signal goroutine waits on
  \<open>signalChan\<close> until the first signal and then returns; \<open>signalChan\<close> has room for
  one buffered signal.
\<close>

datatype pc = AtSelect | InCampaign | Returned

datatype pstatus = Running | Exited nat

record proc =
  world :: world
  status :: pstatus
  ctl :: pc
  defers :: nat
  cancelled :: bool
  quit_closed :: bool
  sig_waiting :: bool
  sig_buf :: nat

text \<open>\<open>log.Fatal(err)\<close> logs the error and calls \<open>os.Exit(1)\<close>: no deferred call runs.\<close>

definition log_Fatal :: "error \<Rightarrow> proc \<Rightarrow> proc" where
  "log_Fatal err p = p\<lparr>world := emit (OsExit 1) (emit (Fatal err) (world p)), status := Exited 1\<rparr>"

text \<open>
  main up to the point where all goroutines are started and main blocks on
  \<open><-exit\<close>, from the kernel's state at process start and an empty trace. The result
  of the first \<open>releaseIP()\<close> is dropped, as in the source.
\<close>

definition main_start :: "env \<Rightarrow> config \<Rightarrow> kernel \<Rightarrow> proc" where
  "main_start e cfg k =
     (let w = \<lparr>net = k, trace = []\<rparr>;
          p0 = \<lparr>world = w, status = Running, ctl = AtSelect, defers = 0, cancelled = False,
                quit_closed = False, sig_waiting = False, sig_buf = 0\<rparr> in
      if version cfg
      then p0\<lparr>world := emit (Println ''Not defined'') w, status := Exited 0, ctl := Returned\<rparr>
      else
        let w1 = snd (releaseIP e cfg w);
            w2 = emit TLSClientConfig w1 in
        if \<not> tls_ok e then log_Fatal TLSError (p0\<lparr>world := w2\<rparr>)
        else
          let w3 = emit (ClientNew (etcdaddress cfg)) w2 in
          if \<not> client_ok e then log_Fatal ClientError (p0\<lparr>world := w3\<rparr>)
          else
            let w4 = emit NewSession w3 in
            if \<not> session_ok e then log_Fatal SessionError (p0\<lparr>world := w4\<rparr>)
            else p0\<lparr>world := emit SignalNotify (emit (NewElection (prefix cfg)) w4),
                    sig_waiting := True\<rparr>)"

text \<open>
  The deferred calls of the leadership goroutine run last-in first-out when it
  returns: the \<open>releaseIP()\<close> calls (results dropped), then \<open>s.Close()\<close>, then
  \<open>exit <- 0\<close>. main receives the code, closes the client, logs and calls \<open>os.Exit(code)\<close>.
\<close>

fun run_defers :: "nat \<Rightarrow> env \<Rightarrow> config \<Rightarrow> world \<Rightarrow> world" where
  "run_defers 0 e cfg w = w"
| "run_defers (Suc n) e cfg w = run_defers n e cfg (snd (releaseIP e cfg w))"

definition goroutine_return :: "env \<Rightarrow> config \<Rightarrow> proc \<Rightarrow> proc" where
  "goroutine_return e cfg p =
     (let w1 = run_defers (defers p) e cfg (world p);
          w2 = emit (ExitSend 0) (emit SessionClose w1);
          w3 = emit (OsExit 0) (emit (Log Info ''Exiting with code: 0'') (emit ClientClose w2))
      in p\<lparr>world := w3, status := Exited 0, ctl := Returned, defers := 0\<rparr>)"

text \<open>
  What can happen next, chosen by the scheduler and the outside world:
  a termination signal is delivered; the \<open>select\<close> takes its timer case and
  \<open>Campaign\<close> is called; the \<open>select\<close> takes \<open><-quit\<close>; the pending \<open>Campaign\<close>
  resolves; some other process changes the kernel's network configuration.
\<close>

datatype outcome = Leader | Canceled | Failed

datatype event =
    Signal
  | TimerFires
  | QuitCase
  | CampaignResolves outcome
  | Extern "kernel \<Rightarrow> kernel"

text \<open>
  The body of the signal goroutine, run on the first signal: log, \<open>cancel()\<close>,
  \<open>close(quit)\<close>, return. It is one step: no step of another goroutine is placed between
  \<open>cancel()\<close> and \<open>close(quit)\<close>.
\<close>

definition on_signal :: "proc \<Rightarrow> proc" where
  "on_signal p =
     (if sig_waiting p
      then p\<lparr>world := emit CloseQuit (emit CtxCancel (emit (Log Info ''Received signal'') (world p))),
             cancelled := True, quit_closed := True, sig_waiting := False\<rparr>
      else p\<lparr>sig_buf := min 1 (sig_buf p + 1)\<rparr>)"

text \<open>The rest of a loop iteration once \<open>Campaign\<close> has returned.\<close>

definition after_campaign :: "env \<Rightarrow> config \<Rightarrow> outcome \<Rightarrow> proc \<Rightarrow> proc" where
  "after_campaign e cfg r p =
     (case r of
        Canceled \<Rightarrow> goroutine_return e cfg p
      | Failed \<Rightarrow> log_Fatal CampaignError p
      | Leader \<Rightarrow>
          (case ensureIP e cfg (emit (Log Debug ''I am the leader'') (world p)) of
             ((res, Some err), w1) \<Rightarrow> log_Fatal err (p\<lparr>world := w1\<rparr>)
           | ((res, None), w1) \<Rightarrow>
               p\<lparr>world := w1, ctl := AtSelect,
                  defers := (if res then defers p + 1 else defers p)\<rparr>))"

text \<open>
  One step. An event that cannot happen in the current state (a step of a goroutine
  that is elsewhere, \<open><-quit\<close> on an open channel, \<open>context.Canceled\<close> from a context
  nobody cancelled, anything after the process has exited) leaves the state as it is.
\<close>

definition step :: "env \<Rightarrow> config \<Rightarrow> event \<Rightarrow> proc \<Rightarrow> proc" where
  "step e cfg ev p =
     (if status p \<noteq> Running then p
      else case ev of
        Signal \<Rightarrow> on_signal p
      | TimerFires \<Rightarrow>
          if ctl p = AtSelect
          then p\<lparr>world := emit (Campaign (member cfg))
                             (emit (Log Debug ''Waiting to become the leader'')
                                (emit (TimeAfter 5) (world p))),
                 ctl := InCampaign\<rparr>
          else p
      | QuitCase \<Rightarrow>
          if ctl p = AtSelect \<and> quit_closed p then goroutine_return e cfg p else p
      | CampaignResolves r \<Rightarrow>
          if ctl p = InCampaign \<and> (r = Canceled \<longrightarrow> cancelled p)
          then after_campaign e cfg r p else p
      | Extern f \<Rightarrow> p\<lparr>world := (world p)\<lparr>net := f (net (world p))\<rparr>\<rparr>)"

fun run :: "env \<Rightarrow> config \<Rightarrow> event list \<Rightarrow> proc \<Rightarrow> proc" where
  "run e cfg [] p = p"
| "run e cfg (ev # evs) p = run e cfg evs (step e cfg ev p)"

subsection \<open>Vocabulary of the statements\<close>

text \<open>The library calls hasIP makes, in order; it stops at the first one that fails.\<close>

definition hasIP_calls :: "env \<Rightarrow> config \<Rightarrow> kernel \<Rightarrow> call list" where
  "hasIP_calls e cfg k =
     (case ParseAddr e (vip cfg) of
        None \<Rightarrow> [NlParseAddr (vip cfg)]
      | Some va \<Rightarrow>
          (case links k (vif cfg) of
             None \<Rightarrow> [NlParseAddr (vip cfg), NlLinkByName (vif cfg)]
           | Some vl \<Rightarrow> [NlParseAddr (vip cfg), NlLinkByName (vif cfg), NlAddrList vl]))"

text \<open>
  Calls that only read (parse the string, resolve the interface, enumerate the
  addresses), calls that change the address table, and announcement transmissions.
\<close>

fun read_only_call :: "call \<Rightarrow> bool" where
  "read_only_call (NlParseAddr s) = True"
| "read_only_call (NlLinkByName n) = True"
| "read_only_call (NlAddrList l) = True"
| "read_only_call c = False"

fun mutating_call :: "call \<Rightarrow> bool" where
  "mutating_call (NlAddrAdd l a) = True"
| "mutating_call (NlAddrDel l a) = True"
| "mutating_call c = False"

fun is_arp :: "call \<Rightarrow> bool" where
  "is_arp (GratuitousArp ip n) = True"
| "is_arp c = False"

definition transmissions :: "call list \<Rightarrow> nat" where
  "transmissions cs = length (filter is_arp cs)"

text \<open>
  Every execution of releaseIP starts with the same debug line, so the number of
  \<open>releaseIP()\<close> calls made so far is the number of those lines in the trace.
\<close>

definition release_calls :: "call list \<Rightarrow> nat" where
  "release_calls cs = count_list cs (Log Debug ''Releasing IP address'')"

text \<open>Contact with the coordination service: the client, the session, the election.\<close>

fun coordination_call :: "call \<Rightarrow> bool" where
  "coordination_call (ClientNew s) = True"
| "coordination_call NewSession = True"
| "coordination_call (NewElection s) = True"
| "coordination_call (Campaign s) = True"
| "coordination_call SessionClose = True"
| "coordination_call ClientClose = True"
| "coordination_call c = False"

text \<open>
  What hasIP, releaseIP and ensureIP can append to the trace: log lines, netlink
  calls, transmissions and sleeps. Everything else belongs to the coordination
  client, the shutdown path or the end of the process.
\<close>

fun ip_call :: "call \<Rightarrow> bool" where
  "ip_call (Log l s) = True"
| "ip_call (NlParseAddr s) = True"
| "ip_call (NlLinkByName n) = True"
| "ip_call (NlAddrList l) = True"
| "ip_call (NlAddrAdd l a) = True"
| "ip_call (NlAddrDel l a) = True"
| "ip_call (GratuitousArp ip n) = True"
| "ip_call (Sleep n) = True"
| "ip_call c = False"

fun is_extern :: "event \<Rightarrow> bool" where
  "is_extern (Extern f) = True"
| "is_extern ev = False"

subsection \<open>A concrete host\<close>

text \<open>
  The default flags of main.go, a parser that accepts exactly the default VIP, and a
  host whose interface eth0 has index 2 and no address yet. The examples below run the
  program on them.
\<close>

definition vip0 :: addr where
  "vip0 = \<lparr>IP = [192, 168, 0, 254], plen = 32, Label = ''''\<rparr>"

definition cfg0 :: config where
  "cfg0 = \<lparr>version = False, prefix = ''/govip/'', member = ''hostname'',
           vip = ''192.168.0.254/32'', vif = ''eth0'', etcdaddress = ''https://127.0.0.1:2379'',
           cafile = ''ca.crt'', certfile = ''server.crt'', keyfile = ''server.key''\<rparr>"

definition env0 :: env where
  "env0 = \<lparr>ParseAddr = (\<lambda>s. if s = ''192.168.0.254/32'' then Some vip0 else None),
           tls_ok = True, client_ok = True, session_ok = True\<rparr>"

definition kernel0 :: kernel where
  "kernel0 = \<lparr>links = (\<lambda>n. if n = ''eth0'' then Some 2 else None), table = (\<lambda>l. []),
              list_fails = False, add_fails = False, del_fails = False, arp_fails = False\<rparr>"

text \<open>The same host with the VIP already on eth0.\<close>

definition kernel1 :: kernel where
  "kernel1 = kernel0\<lparr>table := (\<lambda>l. if l = 2 then [vip0] else [])\<rparr>"

text \<open>Another process deletes every address of every interface.\<close>

definition flush_addrs :: "kernel \<Rightarrow> kernel" where
  "flush_addrs k = k\<lparr>table := (\<lambda>l. [])\<rparr>"

text \<open>The default flags with a VIP that is not a CIDR.\<close>

definition cfg_bad :: config where
  "cfg_bad = cfg0\<lparr>vip := ''not-a-cidr''\<rparr>"

subsection \<open>Facts that hold along a run\<close>

text \<open>
  hasIP would find the address present; and: no release obligation is pending, or
  exactly one is and the address is present.
\<close>

definition observed_present :: "env \<Rightarrow> config \<Rightarrow> world \<Rightarrow> bool" where
  "observed_present e cfg w =
     (case fst (hasIP e cfg w) of Inl err \<Rightarrow> False | Inr (present, vaddr, vlink) \<Rightarrow> present)"

definition single_obligation :: "env \<Rightarrow> config \<Rightarrow> proc \<Rightarrow> bool" where
  "single_obligation e cfg p =
     (defers p = 0 \<or> (defers p = 1 \<and> observed_present e cfg (world p)))"




section \<open>Basic facts\<close>

lemma net_emit [simp]: "net (emit c w) = net w"
  by (simp add: emit_def)

lemma trace_emit [simp]: "trace (emit c w) = trace w @ [c]"
  by (simp add: emit_def)

lemma hasIP_fst:
  "fst (hasIP e cfg w) =
     (case ParseAddr e (vip cfg) of
        None \<Rightarrow> Inl ParseError
      | Some va \<Rightarrow>
          (case links (net w) (vif cfg) of
             None \<Rightarrow> Inl LinkError
           | Some vl \<Rightarrow>
               if list_fails (net w) then Inl ListError
               else Inr (hasIP_range va (table (net w) vl), va, vl)))"
  by (simp add: hasIP_def netlink_ParseAddr_def netlink_LinkByName_def netlink_AddrList_def
      split: option.splits)

lemma hasIP_fst_net: "net w = net w' \<Longrightarrow> fst (hasIP e cfg w) = fst (hasIP e cfg w')"
  by (simp add: hasIP_fst split: option.splits)

lemma hasIP_net [simp]: "net (snd (hasIP e cfg w)) = net w"
  by (simp add: hasIP_def netlink_ParseAddr_def netlink_LinkByName_def netlink_AddrList_def
      split: option.splits)

lemma hasIP_trace: "trace (snd (hasIP e cfg w)) = trace w @ hasIP_calls e cfg (net w)"
  by (simp add: hasIP_def hasIP_calls_def netlink_ParseAddr_def netlink_LinkByName_def netlink_AddrList_def
      split: option.splits)

lemma hasIP_range_iff: "hasIP_range va as = (\<exists>a\<in>set as. addr_Equal va a)"
  by (induction as) auto

lemma arps_gen:
  "i \<le> 5 \<Longrightarrow> net (ensureIP_arps cfg va i w) = net w \<and>
     trace (ensureIP_arps cfg va i w) =
       trace w @ concat (replicate (5 - i) [GratuitousArp (IP va) (vif cfg), Sleep 1])"
proof (induction cfg va i w rule: ensureIP_arps.induct)
  case (1 cfg vaddr i w)
  show ?case
  proof (cases "i < 5")
    case True
    then have "5 - i = Suc (5 - (i + 1))" by simp
    with True 1 show ?thesis
      by (subst (1 2) ensureIP_arps.simps)
         (simp add: time_Sleep_def arping_GratuitousArpOverIfaceByName_def)
  next
    case False
    with 1 show ?thesis by (subst (1 2) ensureIP_arps.simps) simp
  qed
qed


lemma ensureIP_error:
  "fst (hasIP e cfg w) = Inl err \<Longrightarrow>
     fst (ensureIP e cfg w) = (False, Some err) \<and> net (snd (ensureIP e cfg w)) = net w \<and>
     trace (snd (ensureIP e cfg w)) =
       trace w @ Log Debug ''Ensuring IP address'' # hasIP_calls e cfg (net w)"
proof -
  assume a: "fst (hasIP e cfg w) = Inl err"
  let ?w0 = "emit (Log Debug ''Ensuring IP address'') w"
  obtain r w1 where h: "hasIP e cfg ?w0 = (r, w1)" by (cases "hasIP e cfg ?w0")
  have "fst (hasIP e cfg ?w0) = fst (hasIP e cfg w)" by (rule hasIP_fst_net) simp
  with a h have r: "r = Inl err" by simp
  have n: "net w1 = net w" using hasIP_net [of e cfg ?w0] h by simp
  have t: "trace w1 = trace ?w0 @ hasIP_calls e cfg (net ?w0)"
    using hasIP_trace [of e cfg ?w0] h by simp
  show ?thesis using r n t h by (simp add: ensureIP_def)
qed

lemma ensureIP_present:
  "fst (hasIP e cfg w) = Inr (True, va, vl) \<Longrightarrow>
     fst (ensureIP e cfg w) = (False, None) \<and> net (snd (ensureIP e cfg w)) = net w \<and>
     trace (snd (ensureIP e cfg w)) =
       trace w @ Log Debug ''Ensuring IP address'' # hasIP_calls e cfg (net w)
         @ [Log Debug ''IP address already set'']"
proof -
  assume a: "fst (hasIP e cfg w) = Inr (True, va, vl)"
  let ?w0 = "emit (Log Debug ''Ensuring IP address'') w"
  obtain r w1 where h: "hasIP e cfg ?w0 = (r, w1)" by (cases "hasIP e cfg ?w0")
  have "fst (hasIP e cfg ?w0) = fst (hasIP e cfg w)" by (rule hasIP_fst_net) simp
  with a h have r: "r = Inr (True, va, vl)" by simp
  have n: "net w1 = net w" using hasIP_net [of e cfg ?w0] h by simp
  have t: "trace w1 = trace ?w0 @ hasIP_calls e cfg (net ?w0)"
    using hasIP_trace [of e cfg ?w0] h by simp
  show ?thesis using r n t h by (simp add: ensureIP_def)
qed

lemma ensureIP_add_fails:
  "fst (hasIP e cfg w) = Inr (False, va, vl) \<Longrightarrow> add_fails (net w) \<Longrightarrow>
     fst (ensureIP e cfg w) = (False, Some AddError) \<and> net (snd (ensureIP e cfg w)) = net w \<and>
     trace (snd (ensureIP e cfg w)) =
       trace w @ Log Debug ''Ensuring IP address'' # hasIP_calls e cfg (net w) @ [NlAddrAdd vl va]"
proof -
  assume a: "fst (hasIP e cfg w) = Inr (False, va, vl)" and f: "add_fails (net w)"
  let ?w0 = "emit (Log Debug ''Ensuring IP address'') w"
  obtain r w1 where h: "hasIP e cfg ?w0 = (r, w1)" by (cases "hasIP e cfg ?w0")
  have "fst (hasIP e cfg ?w0) = fst (hasIP e cfg w)" by (rule hasIP_fst_net) simp
  with a h have r: "r = Inr (False, va, vl)" by simp
  have n: "net w1 = net w" using hasIP_net [of e cfg ?w0] h by simp
  have t: "trace w1 = trace ?w0 @ hasIP_calls e cfg (net ?w0)"
    using hasIP_trace [of e cfg ?w0] h by simp
  show ?thesis using r n t h f by (simp add: ensureIP_def netlink_AddrAdd_def)
qed

lemma ensureIP_added:
  "fst (hasIP e cfg w) = Inr (False, va, vl) \<Longrightarrow> \<not> add_fails (net w) \<Longrightarrow>
     fst (ensureIP e cfg w) = (True, None) \<and>
     net (snd (ensureIP e cfg w)) =
       (net w)\<lparr>table := (table (net w))(vl := table (net w) vl @ [va])\<rparr> \<and>
     trace (snd (ensureIP e cfg w)) =
       trace w @ Log Debug ''Ensuring IP address'' # hasIP_calls e cfg (net w)
         @ [NlAddrAdd vl va, Log Info ''IP address set, sending gratuitous ARPs'']
         @ concat (replicate 5 [GratuitousArp (IP va) (vif cfg), Sleep 1])"
proof -
  assume a: "fst (hasIP e cfg w) = Inr (False, va, vl)" and f: "\<not> add_fails (net w)"
  let ?w0 = "emit (Log Debug ''Ensuring IP address'') w"
  obtain r w1 where h: "hasIP e cfg ?w0 = (r, w1)" by (cases "hasIP e cfg ?w0")
  have "fst (hasIP e cfg ?w0) = fst (hasIP e cfg w)" by (rule hasIP_fst_net) simp
  with a h have r: "r = Inr (False, va, vl)" by simp
  have n: "net w1 = net w" using hasIP_net [of e cfg ?w0] h by simp
  have t: "trace w1 = trace ?w0 @ hasIP_calls e cfg (net ?w0)"
    using hasIP_trace [of e cfg ?w0] h by simp
  show ?thesis using r n t h f arps_gen [of 0]
    by (simp add: ensureIP_def netlink_AddrAdd_def)
qed

lemma releaseIP_error:
  "fst (hasIP e cfg w) = Inl err \<Longrightarrow>
     fst (releaseIP e cfg w) = Some err \<and> net (snd (releaseIP e cfg w)) = net w \<and>
     trace (snd (releaseIP e cfg w)) =
       trace w @ Log Debug ''Releasing IP address'' # hasIP_calls e cfg (net w)"
proof -
  assume a: "fst (hasIP e cfg w) = Inl err"
  let ?w0 = "emit (Log Debug ''Releasing IP address'') w"
  obtain r w1 where h: "hasIP e cfg ?w0 = (r, w1)" by (cases "hasIP e cfg ?w0")
  have "fst (hasIP e cfg ?w0) = fst (hasIP e cfg w)" by (rule hasIP_fst_net) simp
  with a h have r: "r = Inl err" by simp
  have n: "net w1 = net w" using hasIP_net [of e cfg ?w0] h by simp
  have t: "trace w1 = trace ?w0 @ hasIP_calls e cfg (net ?w0)"
    using hasIP_trace [of e cfg ?w0] h by simp
  show ?thesis using r n t h by (simp add: releaseIP_def)
qed

lemma releaseIP_absent:
  "fst (hasIP e cfg w) = Inr (False, va, vl) \<Longrightarrow>
     fst (releaseIP e cfg w) = None \<and> net (snd (releaseIP e cfg w)) = net w \<and>
     trace (snd (releaseIP e cfg w)) =
       trace w @ Log Debug ''Releasing IP address'' # hasIP_calls e cfg (net w)
         @ [Log Debug ''IP address not found'']"
proof -
  assume a: "fst (hasIP e cfg w) = Inr (False, va, vl)"
  let ?w0 = "emit (Log Debug ''Releasing IP address'') w"
  obtain r w1 where h: "hasIP e cfg ?w0 = (r, w1)" by (cases "hasIP e cfg ?w0")
  have "fst (hasIP e cfg ?w0) = fst (hasIP e cfg w)" by (rule hasIP_fst_net) simp
  with a h have r: "r = Inr (False, va, vl)" by simp
  have n: "net w1 = net w" using hasIP_net [of e cfg ?w0] h by simp
  have t: "trace w1 = trace ?w0 @ hasIP_calls e cfg (net ?w0)"
    using hasIP_trace [of e cfg ?w0] h by simp
  show ?thesis using r n t h by (simp add: releaseIP_def)
qed

lemma releaseIP_del_fails:
  "fst (hasIP e cfg w) = Inr (True, va, vl) \<Longrightarrow> del_fails (net w) \<Longrightarrow>
     fst (releaseIP e cfg w) = Some DelError \<and> net (snd (releaseIP e cfg w)) = net w \<and>
     trace (snd (releaseIP e cfg w)) =
       trace w @ Log Debug ''Releasing IP address'' # hasIP_calls e cfg (net w) @ [NlAddrDel vl va]"
proof -
  assume a: "fst (hasIP e cfg w) = Inr (True, va, vl)" and f: "del_fails (net w)"
  let ?w0 = "emit (Log Debug ''Releasing IP address'') w"
  obtain r w1 where h: "hasIP e cfg ?w0 = (r, w1)" by (cases "hasIP e cfg ?w0")
  have "fst (hasIP e cfg ?w0) = fst (hasIP e cfg w)" by (rule hasIP_fst_net) simp
  with a h have r: "r = Inr (True, va, vl)" by simp
  have n: "net w1 = net w" using hasIP_net [of e cfg ?w0] h by simp
  have t: "trace w1 = trace ?w0 @ hasIP_calls e cfg (net ?w0)"
    using hasIP_trace [of e cfg ?w0] h by simp
  show ?thesis using r n t h f by (simp add: releaseIP_def netlink_AddrDel_def)
qed

lemma releaseIP_removed:
  "fst (hasIP e cfg w) = Inr (True, va, vl) \<Longrightarrow> \<not> del_fails (net w) \<Longrightarrow>
     fst (releaseIP e cfg w) = None \<and>
     net (snd (releaseIP e cfg w)) =
       (net w)\<lparr>table := (table (net w))(vl := filter (\<lambda>x. \<not> addr_Equal va x) (table (net w) vl))\<rparr> \<and>
     trace (snd (releaseIP e cfg w)) =
       trace w @ Log Debug ''Releasing IP address'' # hasIP_calls e cfg (net w)
         @ [NlAddrDel vl va, Log Info ''IP address released'']"
proof -
  assume a: "fst (hasIP e cfg w) = Inr (True, va, vl)" and f: "\<not> del_fails (net w)"
  let ?w0 = "emit (Log Debug ''Releasing IP address'') w"
  obtain r w1 where h: "hasIP e cfg ?w0 = (r, w1)" by (cases "hasIP e cfg ?w0")
  have "fst (hasIP e cfg ?w0) = fst (hasIP e cfg w)" by (rule hasIP_fst_net) simp
  with a h have r: "r = Inr (True, va, vl)" by simp
  have n: "net w1 = net w" using hasIP_net [of e cfg ?w0] h by simp
  have t: "trace w1 = trace ?w0 @ hasIP_calls e cfg (net ?w0)"
    using hasIP_trace [of e cfg ?w0] h by simp
  show ?thesis using r n t h f by (simp add: releaseIP_def netlink_AddrDel_def)
qed


lemma hasIP_Inr_iff:
  "fst (hasIP e cfg w) = Inr (b, va, vl) \<longleftrightarrow>
     ParseAddr e (vip cfg) = Some va \<and> links (net w) (vif cfg) = Some vl \<and>
     \<not> list_fails (net w) \<and> b = hasIP_range va (table (net w) vl)"
  by (auto simp: hasIP_fst split: option.splits)

lemma hasIP_calls_read_only: "list_all read_only_call (hasIP_calls e cfg k)"
  by (simp add: hasIP_calls_def split: option.splits)

lemma hasIP_calls_not_mutating: "list_all (\<lambda>c. \<not> mutating_call c) (hasIP_calls e cfg k)"
  by (simp add: hasIP_calls_def split: option.splits)

lemma hasIP_calls_no_arp: "filter is_arp (hasIP_calls e cfg k) = []"
  by (simp add: hasIP_calls_def split: option.splits)

lemma hasIP_range_self: "hasIP_range va (xs @ [va])"
  by (simp add: hasIP_range_iff addr_Equal_def)

lemma hasIP_range_filter: "\<not> hasIP_range va (filter (\<lambda>x. \<not> addr_Equal va x) xs)"
  by (simp add: hasIP_range_iff)

lemma ensureIP_ok_present:
  assumes "snd (fst (ensureIP e cfg w)) = None"
  shows "\<exists>va vl. fst (hasIP e cfg (snd (ensureIP e cfg w))) = Inr (True, va, vl)"
proof (cases "fst (hasIP e cfg w)")
  case (Inl err)
  with ensureIP_error [of e cfg w err] assms show ?thesis by simp
next
  case (Inr r)
  obtain b va vl where r: "r = (b, va, vl)" by (cases r)
  show ?thesis
  proof (cases b)
    case True
    with Inr r have h: "fst (hasIP e cfg w) = Inr (True, va, vl)" by simp
    from ensureIP_present [OF h] have "net (snd (ensureIP e cfg w)) = net w" by simp
    from hasIP_fst_net [OF this] h show ?thesis by auto
  next
    case False
    with Inr r have h: "fst (hasIP e cfg w) = Inr (False, va, vl)" by simp
    show ?thesis
    proof (cases "add_fails (net w)")
      case True
      with ensureIP_add_fails [OF h] assms show ?thesis by simp
    next
      case nf: False
      from ensureIP_added [OF h nf]
      have n: "net (snd (ensureIP e cfg w)) =
                 (net w)\<lparr>table := (table (net w))(vl := table (net w) vl @ [va])\<rparr>" by simp
      from h have "ParseAddr e (vip cfg) = Some va" "links (net w) (vif cfg) = Some vl"
        "\<not> list_fails (net w)" by (simp_all add: hasIP_Inr_iff)
      with n have "fst (hasIP e cfg (snd (ensureIP e cfg w))) = Inr (True, va, vl)"
        by (simp add: hasIP_Inr_iff hasIP_range_self)
      then show ?thesis by blast
    qed
  qed
qed

lemma releaseIP_ok_absent:
  assumes "fst (releaseIP e cfg w) = None"
  shows "\<exists>va vl. fst (hasIP e cfg (snd (releaseIP e cfg w))) = Inr (False, va, vl)"
proof (cases "fst (hasIP e cfg w)")
  case (Inl err)
  with releaseIP_error [of e cfg w err] assms show ?thesis by simp
next
  case (Inr r)
  obtain b va vl where r: "r = (b, va, vl)" by (cases r)
  show ?thesis
  proof (cases b)
    case False
    with Inr r have h: "fst (hasIP e cfg w) = Inr (False, va, vl)" by simp
    from releaseIP_absent [OF h] have "net (snd (releaseIP e cfg w)) = net w" by simp
    from hasIP_fst_net [OF this] h show ?thesis by auto
  next
    case True
    with Inr r have h: "fst (hasIP e cfg w) = Inr (True, va, vl)" by simp
    show ?thesis
    proof (cases "del_fails (net w)")
      case True
      with releaseIP_del_fails [OF h] assms show ?thesis by simp
    next
      case nf: False
      from releaseIP_removed [OF h nf]
      have n: "net (snd (releaseIP e cfg w)) =
                 (net w)\<lparr>table := (table (net w))
                    (vl := filter (\<lambda>x. \<not> addr_Equal va x) (table (net w) vl))\<rparr>" by simp
      from h have "ParseAddr e (vip cfg) = Some va" "links (net w) (vif cfg) = Some vl"
        "\<not> list_fails (net w)" by (simp_all add: hasIP_Inr_iff)
      with n have "fst (hasIP e cfg (snd (releaseIP e cfg w))) = Inr (False, va, vl)"
        by (simp add: hasIP_Inr_iff hasIP_range_filter)
      then show ?thesis by blast
    qed
  qed
qed

lemma transmissions_append [simp]: "transmissions (xs @ ys) = transmissions xs + transmissions ys"
  by (simp add: transmissions_def)

lemma transmissions_arps:
  "transmissions (concat (replicate n [GratuitousArp ip nm, Sleep 1])) = n"
  by (induction n) (simp_all add: transmissions_def)

section \<open>The IP state manager\<close>

text \<open>
  C5. hasIP returns an error exactly when the configured address string does not
  parse, or the interface name does not resolve, or the addresses cannot be listed.
  Otherwise it returns the parsed address, the resolved interface and the presence
  flag, and the flag is true if and only if some entry of the interface's current
  address list is equal to the configured address.
\<close>

theorem hasIP_observes:
  "((\<exists>err. fst (hasIP e cfg w) = Inl err) \<longleftrightarrow>
      (ParseAddr e (vip cfg) = None \<or> links (net w) (vif cfg) = None \<or> list_fails (net w)))
   \<and> (\<forall>va vl. ParseAddr e (vip cfg) = Some va \<and> links (net w) (vif cfg) = Some vl
           \<and> \<not> list_fails (net w) \<longrightarrow>
         fst (hasIP e cfg w) = Inr ((\<exists>a\<in>set (table (net w) vl). addr_Equal va a), va, vl))"
  by (auto simp: hasIP_fst hasIP_range_iff split: option.splits)

text \<open>The statement above at the concrete host.\<close>

theorem hasIP_observes_witness:
  "fst (hasIP env0 cfg0 \<lparr>net = kernel1, trace = []\<rparr>) = Inr (True, vip0, 2) \<and>
   fst (hasIP env0 cfg0 \<lparr>net = kernel0, trace = []\<rparr>) = Inr (False, vip0, 2) \<and>
   (\<exists>err. fst (hasIP env0 (cfg0\<lparr>vip := ''not-a-cidr''\<rparr>) \<lparr>net = kernel0, trace = []\<rparr>) = Inl err)"
  using hasIP_observes [of env0 cfg0 "\<lparr>net = kernel1, trace = []\<rparr>"]
    hasIP_observes [of env0 cfg0 "\<lparr>net = kernel0, trace = []\<rparr>"]
    hasIP_observes [of env0 "cfg0\<lparr>vip := ''not-a-cidr''\<rparr>" "\<lparr>net = kernel0, trace = []\<rparr>"]
  by (simp add: env0_def cfg0_def kernel0_def kernel1_def vip0_def addr_Equal_def)

text \<open>
  C10. hasIP is read-only: whatever it returns, the kernel's network configuration
  after the call is the one before it, and the library calls it made are only the
  parse, the interface lookup and the address enumeration.
\<close>

theorem hasIP_read_only:
  "net (snd (hasIP e cfg w)) = net w \<and>
   (\<exists>cs. trace (snd (hasIP e cfg w)) = trace w @ cs \<and> list_all read_only_call cs)"
  using hasIP_trace [of e cfg w] hasIP_calls_read_only [of e cfg "net w"] by simp

text \<open>The statement above at the concrete host.\<close>

theorem hasIP_read_only_witness:
  "net (snd (hasIP env0 cfg0 \<lparr>net = kernel1, trace = []\<rparr>)) = kernel1 \<and>
   (\<exists>cs. trace (snd (hasIP env0 cfg0 \<lparr>net = kernel1, trace = []\<rparr>)) = cs \<and>
         list_all read_only_call cs)"
  using hasIP_read_only [of env0 cfg0 "\<lparr>net = kernel1, trace = []\<rparr>"]
  by simp

text \<open>
  C3. ensureIP is idempotent. In every state where hasIP finds the address present,
  ensureIP returns \<open>(false, nil)\<close>, leaves the kernel's configuration as it was and
  makes no call that changes the address table. In particular a call that follows a
  successful ensureIP, with nothing in between, is such a no-op.
\<close>

theorem ensureIP_idempotent:
  "(fst (hasIP e cfg w) = Inr (True, va, vl) \<longrightarrow>
      fst (ensureIP e cfg w) = (False, None) \<and> net (snd (ensureIP e cfg w)) = net w \<and>
      (\<exists>cs. trace (snd (ensureIP e cfg w)) = trace w @ cs \<and>
            list_all (\<lambda>c. \<not> mutating_call c) cs))
   \<and> (snd (fst (ensureIP e cfg w)) = None \<longrightarrow>
      fst (ensureIP e cfg (snd (ensureIP e cfg w))) = (False, None) \<and>
      net (snd (ensureIP e cfg (snd (ensureIP e cfg w)))) = net (snd (ensureIP e cfg w)))"
proof (intro conjI impI)
  assume h: "fst (hasIP e cfg w) = Inr (True, va, vl)"
  from ensureIP_present [OF h] show "fst (ensureIP e cfg w) = (False, None)"
    and "net (snd (ensureIP e cfg w)) = net w" by simp_all
  from ensureIP_present [OF h] hasIP_calls_not_mutating [of e cfg "net w"]
  show "\<exists>cs. trace (snd (ensureIP e cfg w)) = trace w @ cs \<and>
            list_all (\<lambda>c. \<not> mutating_call c) cs" by simp
next
  assume ok: "snd (fst (ensureIP e cfg w)) = None"
  from ensureIP_ok_present [OF ok] obtain va' vl'
    where h: "fst (hasIP e cfg (snd (ensureIP e cfg w))) = Inr (True, va', vl')" by blast
  from ensureIP_present [OF h]
  show "fst (ensureIP e cfg (snd (ensureIP e cfg w))) = (False, None)"
    and "net (snd (ensureIP e cfg (snd (ensureIP e cfg w)))) = net (snd (ensureIP e cfg w))"
    by simp_all
qed

text \<open>The statement above at the concrete host.\<close>

theorem ensureIP_idempotent_witness:
  "fst (hasIP env0 cfg0 \<lparr>net = kernel1, trace = []\<rparr>) = Inr (True, vip0, 2) \<and>
   fst (ensureIP env0 cfg0 \<lparr>net = kernel1, trace = []\<rparr>) = (False, None) \<and>
   net (snd (ensureIP env0 cfg0 \<lparr>net = kernel1, trace = []\<rparr>)) = kernel1 \<and>
   snd (fst (ensureIP env0 cfg0 \<lparr>net = kernel0, trace = []\<rparr>)) = None \<and>
   fst (ensureIP env0 cfg0 (snd (ensureIP env0 cfg0 \<lparr>net = kernel0, trace = []\<rparr>))) = (False, None)"
proof -
  have h1: "fst (hasIP env0 cfg0 \<lparr>net = kernel1, trace = []\<rparr>) = Inr (True, vip0, 2)"
    by (simp add: hasIP_fst env0_def cfg0_def kernel0_def kernel1_def vip0_def addr_Equal_def)
  have h0: "fst (hasIP env0 cfg0 \<lparr>net = kernel0, trace = []\<rparr>) = Inr (False, vip0, 2)"
    by (simp add: hasIP_fst env0_def cfg0_def kernel0_def)
  have ok: "snd (fst (ensureIP env0 cfg0 \<lparr>net = kernel0, trace = []\<rparr>)) = None"
    using ensureIP_added [OF h0] by (simp add: kernel0_def)
  show ?thesis
    using h1 ok ensureIP_idempotent [of env0 cfg0 "\<lparr>net = kernel1, trace = []\<rparr>" vip0 2]
      ensureIP_idempotent [of env0 cfg0 "\<lparr>net = kernel0, trace = []\<rparr>"]
    by simp
qed

text \<open>
  C4. releaseIP is idempotent. Where hasIP finds the address absent, releaseIP
  returns nil, changes nothing, makes no call that changes the address table and ends
  on the line "IP address not found". Where the address is present (and the removal
  goes through) it deletes the address, returns nil and ends on "IP address released",
  and the address is absent afterwards. A call that follows a successful releaseIP,
  with nothing in between, is a no-op.
\<close>

theorem releaseIP_idempotent:
  "(fst (hasIP e cfg w) = Inr (False, va, vl) \<longrightarrow>
      fst (releaseIP e cfg w) = None \<and> net (snd (releaseIP e cfg w)) = net w \<and>
      (\<exists>cs. trace (snd (releaseIP e cfg w)) = trace w @ cs @ [Log Debug ''IP address not found'']
            \<and> list_all (\<lambda>c. \<not> mutating_call c) cs))
   \<and> (fst (hasIP e cfg w) = Inr (True, va, vl) \<and> \<not> del_fails (net w) \<longrightarrow>
      fst (releaseIP e cfg w) = None \<and>
      table (net (snd (releaseIP e cfg w))) vl =
        filter (\<lambda>x. \<not> addr_Equal va x) (table (net w) vl) \<and>
      fst (hasIP e cfg (snd (releaseIP e cfg w))) = Inr (False, va, vl) \<and>
      (\<exists>cs. trace (snd (releaseIP e cfg w)) =
              trace w @ cs @ [NlAddrDel vl va, Log Info ''IP address released'']))
   \<and> (fst (releaseIP e cfg w) = None \<longrightarrow>
      fst (releaseIP e cfg (snd (releaseIP e cfg w))) = None \<and>
      net (snd (releaseIP e cfg (snd (releaseIP e cfg w)))) = net (snd (releaseIP e cfg w)) \<and>
      last (trace (snd (releaseIP e cfg (snd (releaseIP e cfg w))))) =
        Log Debug ''IP address not found'')"
proof (intro conjI impI)
  assume h: "fst (hasIP e cfg w) = Inr (False, va, vl)"
  from releaseIP_absent [OF h] show "fst (releaseIP e cfg w) = None"
    and "net (snd (releaseIP e cfg w)) = net w" by simp_all
  have "list_all (\<lambda>c. \<not> mutating_call c)
          (Log Debug ''Releasing IP address'' # hasIP_calls e cfg (net w))"
    using hasIP_calls_not_mutating [of e cfg "net w"] by simp
  with releaseIP_absent [OF h]
  show "\<exists>cs. trace (snd (releaseIP e cfg w)) = trace w @ cs @ [Log Debug ''IP address not found'']
            \<and> list_all (\<lambda>c. \<not> mutating_call c) cs"
    by (intro exI [of _ "Log Debug ''Releasing IP address'' # hasIP_calls e cfg (net w)"]) simp
next
  assume a: "fst (hasIP e cfg w) = Inr (True, va, vl) \<and> \<not> del_fails (net w)"
  then have h: "fst (hasIP e cfg w) = Inr (True, va, vl)" and nf: "\<not> del_fails (net w)"
    by simp_all
  note r = releaseIP_removed [OF h nf]
  from r show "fst (releaseIP e cfg w) = None" by simp
  from r show "table (net (snd (releaseIP e cfg w))) vl =
        filter (\<lambda>x. \<not> addr_Equal va x) (table (net w) vl)" by simp
  from h have "ParseAddr e (vip cfg) = Some va" "links (net w) (vif cfg) = Some vl"
    "\<not> list_fails (net w)" by (simp_all add: hasIP_Inr_iff)
  with r show "fst (hasIP e cfg (snd (releaseIP e cfg w))) = Inr (False, va, vl)"
    by (simp add: hasIP_Inr_iff hasIP_range_filter)
  from r show "\<exists>cs. trace (snd (releaseIP e cfg w)) =
              trace w @ cs @ [NlAddrDel vl va, Log Info ''IP address released'']"
    by (intro exI [of _ "Log Debug ''Releasing IP address'' # hasIP_calls e cfg (net w)"]) simp
next
  assume ok: "fst (releaseIP e cfg w) = None"
  from releaseIP_ok_absent [OF ok] obtain va' vl'
    where h: "fst (hasIP e cfg (snd (releaseIP e cfg w))) = Inr (False, va', vl')" by blast
  note r = releaseIP_absent [OF h]
  from r show "fst (releaseIP e cfg (snd (releaseIP e cfg w))) = None"
    and "net (snd (releaseIP e cfg (snd (releaseIP e cfg w)))) = net (snd (releaseIP e cfg w))"
    by simp_all
  from r show "last (trace (snd (releaseIP e cfg (snd (releaseIP e cfg w))))) =
        Log Debug ''IP address not found''" by simp
qed

text \<open>The statement above at the concrete host.\<close>

theorem releaseIP_idempotent_witness:
  "fst (hasIP env0 cfg0 \<lparr>net = kernel0, trace = []\<rparr>) = Inr (False, vip0, 2) \<and>
   fst (releaseIP env0 cfg0 \<lparr>net = kernel0, trace = []\<rparr>) = None \<and>
   net (snd (releaseIP env0 cfg0 \<lparr>net = kernel0, trace = []\<rparr>)) = kernel0 \<and>
   fst (hasIP env0 cfg0 \<lparr>net = kernel1, trace = []\<rparr>) = Inr (True, vip0, 2) \<and>
   \<not> del_fails kernel1 \<and>
   fst (releaseIP env0 cfg0 \<lparr>net = kernel1, trace = []\<rparr>) = None \<and>
   table (net (snd (releaseIP env0 cfg0 \<lparr>net = kernel1, trace = []\<rparr>))) 2 = [] \<and>
   fst (releaseIP env0 cfg0 (snd (releaseIP env0 cfg0 \<lparr>net = kernel1, trace = []\<rparr>))) = None"
proof -
  have h1: "fst (hasIP env0 cfg0 \<lparr>net = kernel1, trace = []\<rparr>) = Inr (True, vip0, 2)"
    by (simp add: hasIP_fst env0_def cfg0_def kernel0_def kernel1_def vip0_def addr_Equal_def)
  have h0: "fst (hasIP env0 cfg0 \<lparr>net = kernel0, trace = []\<rparr>) = Inr (False, vip0, 2)"
    by (simp add: hasIP_fst env0_def cfg0_def kernel0_def)
  have nf: "\<not> del_fails kernel1" by (simp add: kernel0_def kernel1_def)
  have t: "filter (\<lambda>x. \<not> addr_Equal vip0 x) (table kernel1 2) = []"
    by (simp add: kernel1_def addr_Equal_def)
  show ?thesis
    using h0 h1 nf t
      releaseIP_idempotent [of env0 cfg0 "\<lparr>net = kernel0, trace = []\<rparr>" vip0 2]
      releaseIP_idempotent [of env0 cfg0 "\<lparr>net = kernel1, trace = []\<rparr>" vip0 2]
    by simp
qed

text \<open>
  C6. When ensureIP adds an address that was absent, it returns \<open>(true, nil)\<close> and
  the trace ends with exactly five transmissions, each followed by a sleep of one
  second; nothing in the statement depends on whether the transmissions fail, so a
  failing transmission changes neither the count nor the result. When the address is
  already present, ensureIP transmits nothing.
\<close>

theorem ensureIP_announcements:
  "(fst (hasIP e cfg w) = Inr (False, va, vl) \<and> \<not> add_fails (net w) \<longrightarrow>
      fst (ensureIP e cfg w) = (True, None) \<and>
      (\<exists>cs. trace (snd (ensureIP e cfg w)) =
              trace w @ cs @ concat (replicate 5 [GratuitousArp (IP va) (vif cfg), Sleep 1])
            \<and> transmissions cs = 0) \<and>
      transmissions (trace (snd (ensureIP e cfg w))) = transmissions (trace w) + 5)
   \<and> (fst (hasIP e cfg w) = Inr (True, va, vl) \<longrightarrow>
      fst (ensureIP e cfg w) = (False, None) \<and>
      transmissions (trace (snd (ensureIP e cfg w))) = transmissions (trace w))"
proof (intro conjI impI)
  assume a: "fst (hasIP e cfg w) = Inr (False, va, vl) \<and> \<not> add_fails (net w)"
  then have h: "fst (hasIP e cfg w) = Inr (False, va, vl)" and nf: "\<not> add_fails (net w)"
    by simp_all
  note r = ensureIP_added [OF h nf]
  let ?cs = "Log Debug ''Ensuring IP address'' # hasIP_calls e cfg (net w)
         @ [NlAddrAdd vl va, Log Info ''IP address set, sending gratuitous ARPs'']"
  have z: "transmissions ?cs = 0"
    by (simp add: transmissions_def hasIP_calls_no_arp)
  from r show "fst (ensureIP e cfg w) = (True, None)" by simp
  from r z show "\<exists>cs. trace (snd (ensureIP e cfg w)) =
              trace w @ cs @ concat (replicate 5 [GratuitousArp (IP va) (vif cfg), Sleep 1])
            \<and> transmissions cs = 0"
    by (intro exI [of _ ?cs]) simp
  have "trace (snd (ensureIP e cfg w)) =
          trace w @ ?cs @ concat (replicate 5 [GratuitousArp (IP va) (vif cfg), Sleep 1])"
    using r by simp
  then have "transmissions (trace (snd (ensureIP e cfg w))) =
          transmissions (trace w) + transmissions ?cs
            + transmissions (concat (replicate 5 [GratuitousArp (IP va) (vif cfg), Sleep 1]))"
    by (simp only: transmissions_append)
  with z show "transmissions (trace (snd (ensureIP e cfg w))) = transmissions (trace w) + 5"
    by (simp only: transmissions_arps)
next
  assume h: "fst (hasIP e cfg w) = Inr (True, va, vl)"
  note r = ensureIP_present [OF h]
  from r show "fst (ensureIP e cfg w) = (False, None)" by simp
  from r show "transmissions (trace (snd (ensureIP e cfg w))) = transmissions (trace w)"
    by (simp add: transmissions_def hasIP_calls_no_arp)
qed

text \<open>The statement above at the concrete host.\<close>

theorem ensureIP_announcements_witness:
  "fst (hasIP env0 cfg0 \<lparr>net = kernel0\<lparr>arp_fails := True\<rparr>, trace = []\<rparr>) = Inr (False, vip0, 2) \<and>
   \<not> add_fails (kernel0\<lparr>arp_fails := True\<rparr>) \<and>
   fst (ensureIP env0 cfg0 \<lparr>net = kernel0\<lparr>arp_fails := True\<rparr>, trace = []\<rparr>) = (True, None) \<and>
   transmissions (trace (snd (ensureIP env0 cfg0 \<lparr>net = kernel0\<lparr>arp_fails := True\<rparr>, trace = []\<rparr>))) = 5 \<and>
   fst (hasIP env0 cfg0 \<lparr>net = kernel1, trace = []\<rparr>) = Inr (True, vip0, 2) \<and>
   transmissions (trace (snd (ensureIP env0 cfg0 \<lparr>net = kernel1, trace = []\<rparr>))) = 0"
proof -
  have h1: "fst (hasIP env0 cfg0 \<lparr>net = kernel1, trace = []\<rparr>) = Inr (True, vip0, 2)"
    by (simp add: hasIP_fst env0_def cfg0_def kernel0_def kernel1_def vip0_def addr_Equal_def)
  have h0: "fst (hasIP env0 cfg0 \<lparr>net = kernel0\<lparr>arp_fails := True\<rparr>, trace = []\<rparr>)
              = Inr (False, vip0, 2)"
    by (simp add: hasIP_fst env0_def cfg0_def kernel0_def)
  have nf: "\<not> add_fails (kernel0\<lparr>arp_fails := True\<rparr>)" by (simp add: kernel0_def)
  show ?thesis
    using h0 h1 nf
      ensureIP_announcements [of env0 cfg0 "\<lparr>net = kernel0\<lparr>arp_fails := True\<rparr>, trace = []\<rparr>" vip0 2]
      ensureIP_announcements [of env0 cfg0 "\<lparr>net = kernel1, trace = []\<rparr>" vip0 2]
    by (simp add: transmissions_def)
qed

section \<open>The process\<close>

lemma hasIP_calls_ip: "list_all ip_call (hasIP_calls e cfg k)"
  by (simp add: hasIP_calls_def split: option.splits)

lemma release_calls_append [simp]: "release_calls (xs @ ys) = release_calls xs + release_calls ys"
  by (simp add: release_calls_def)

lemma release_calls_Nil [simp]: "release_calls [] = 0"
  by (simp add: release_calls_def)

lemma release_calls_Cons [simp]:
  "release_calls (c # cs) =
     (if c = Log Debug ''Releasing IP address'' then 1 else 0) + release_calls cs"
  by (simp add: release_calls_def)

lemma release_calls_hasIP_calls [simp]: "release_calls (hasIP_calls e cfg k) = 0"
  by (simp add: release_calls_def hasIP_calls_def split: option.splits)

lemma releaseIP_trace:
  "\<exists>cs. trace (snd (releaseIP e cfg w)) = trace w @ cs \<and> release_calls cs = 1 \<and>
        list_all ip_call cs"
proof (cases "fst (hasIP e cfg w)")
  case (Inl err)
  from releaseIP_error [OF Inl] hasIP_calls_ip [of e cfg "net w"] show ?thesis
    by (intro exI [of _ "Log Debug ''Releasing IP address'' # hasIP_calls e cfg (net w)"])
       simp
next
  case (Inr r)
  obtain b va vl where r: "r = (b, va, vl)" by (cases r)
  show ?thesis
  proof (cases b)
    case False
    with Inr r have h: "fst (hasIP e cfg w) = Inr (False, va, vl)" by simp
    from releaseIP_absent [OF h] hasIP_calls_ip [of e cfg "net w"] show ?thesis
      by (intro exI [of _ "Log Debug ''Releasing IP address'' # hasIP_calls e cfg (net w)
            @ [Log Debug ''IP address not found'']"])
         simp
  next
    case True
    with Inr r have h: "fst (hasIP e cfg w) = Inr (True, va, vl)" by simp
    show ?thesis
    proof (cases "del_fails (net w)")
      case True
      from releaseIP_del_fails [OF h True] hasIP_calls_ip [of e cfg "net w"] show ?thesis
        by (intro exI [of _ "Log Debug ''Releasing IP address'' # hasIP_calls e cfg (net w)
              @ [NlAddrDel vl va]"])
           simp
    next
      case False
      from releaseIP_removed [OF h False] hasIP_calls_ip [of e cfg "net w"] show ?thesis
        by (intro exI [of _ "Log Debug ''Releasing IP address'' # hasIP_calls e cfg (net w)
              @ [NlAddrDel vl va, Log Info ''IP address released'']"])
           simp
    qed
  qed
qed

lemma releaseIP_trace_ex:
  obtains cs where "trace (snd (releaseIP e cfg w)) = trace w @ cs"
    and "release_calls cs = 1" and "list_all ip_call cs"
  using releaseIP_trace [of e cfg w] by blast

lemma run_defers_trace:
  "\<exists>cs. trace (run_defers n e cfg w) = trace w @ cs \<and> release_calls cs = n \<and>
        list_all ip_call cs"
proof (induction n arbitrary: w)
  case 0
  show ?case by simp
next
  case (Suc n)
  obtain cs1 where c1: "trace (snd (releaseIP e cfg w)) = trace w @ cs1"
    "release_calls cs1 = 1" "list_all ip_call cs1"
    by (rule releaseIP_trace_ex)
  from Suc.IH [of "snd (releaseIP e cfg w)"] obtain cs2 where
    c2: "trace (run_defers n e cfg (snd (releaseIP e cfg w))) =
           trace (snd (releaseIP e cfg w)) @ cs2"
    "release_calls cs2 = n" "list_all ip_call cs2" by blast
  from c1 c2 show ?case
    by (intro exI [of _ "cs1 @ cs2"]) simp
qed


lemma goroutine_return_trace:
  "\<exists>cs. trace (world (goroutine_return e cfg p)) =
          trace (world p) @ cs @
            [SessionClose, ExitSend 0, ClientClose, Log Info ''Exiting with code: 0'', OsExit 0]
        \<and> release_calls cs = defers p \<and> list_all ip_call cs"
proof -
  from run_defers_trace [of "defers p" e cfg "world p"] obtain cs where
    c: "trace (run_defers (defers p) e cfg (world p)) = trace (world p) @ cs"
    "release_calls cs = defers p" "list_all ip_call cs" by blast
  then show ?thesis
    by (intro exI [of _ cs]) (simp add: goroutine_return_def)
qed

lemma goroutine_return_fields [simp]:
  "status (goroutine_return e cfg p) = Exited 0"
  "ctl (goroutine_return e cfg p) = Returned"
  "defers (goroutine_return e cfg p) = 0"
  "cancelled (goroutine_return e cfg p) = cancelled p"
  "quit_closed (goroutine_return e cfg p) = quit_closed p"
  "sig_waiting (goroutine_return e cfg p) = sig_waiting p"
  "sig_buf (goroutine_return e cfg p) = sig_buf p"
  by (simp_all add: goroutine_return_def)

lemma log_Fatal_fields [simp]:
  "status (log_Fatal err p) = Exited 1"
  "ctl (log_Fatal err p) = ctl p"
  "defers (log_Fatal err p) = defers p"
  "cancelled (log_Fatal err p) = cancelled p"
  "quit_closed (log_Fatal err p) = quit_closed p"
  "sig_waiting (log_Fatal err p) = sig_waiting p"
  "sig_buf (log_Fatal err p) = sig_buf p"
  "net (world (log_Fatal err p)) = net (world p)"
  "trace (world (log_Fatal err p)) = trace (world p) @ [Fatal err, OsExit 1]"
  by (simp_all add: log_Fatal_def)



lemmas exec_defs =
  main_start_def step_def run.simps after_campaign_def goroutine_return_def on_signal_def
  log_Fatal_def run_defers.simps ensureIP_def releaseIP_def hasIP_def ensureIP_arps.simps
  netlink_ParseAddr_def netlink_LinkByName_def netlink_AddrList_def netlink_AddrAdd_def
  netlink_AddrDel_def arping_GratuitousArpOverIfaceByName_def time_Sleep_def emit_def
  addr_Equal_def

lemmas host_defs = env0_def cfg0_def cfg_bad_def kernel0_def kernel1_def vip0_def flush_addrs_def



lemma ip_call_not_coordination: "ip_call c \<Longrightarrow> \<not> coordination_call c"
  by (cases c) simp_all

lemma list_all_ip_not_coordination:
  "list_all ip_call cs \<Longrightarrow> list_all (\<lambda>c. \<not> coordination_call c) cs"
  by (induction cs) (simp_all add: ip_call_not_coordination)

lemma hasIP_parse_fails:
  "ParseAddr e (vip cfg) = None \<Longrightarrow>
     fst (hasIP e cfg w) = Inl ParseError \<and> hasIP_calls e cfg k = [NlParseAddr (vip cfg)]"
  by (simp add: hasIP_fst hasIP_calls_def)

section \<open>Startup\<close>

text \<open>
  C9. When the version flag is not set, main calls releaseIP once before anything
  else: the startup trace is the trace of that one call, in which nothing touches the
  coordination service, followed by calls among which there is no further release.
  The result of the call is dropped: the calls that follow, and every part of the
  process state but the kernel and the trace of the release itself, are the same
  whatever the kernel's state, so whether the release succeeded or failed.
\<close>

theorem startup_release:
  "\<not> version cfg \<longrightarrow>
     (\<exists>rest. release_calls rest = 0 \<and>
        (\<forall>k. trace (world (main_start e cfg k)) =
                trace (snd (releaseIP e cfg \<lparr>net = k, trace = []\<rparr>)) @ rest \<and>
             net (world (main_start e cfg k)) =
                net (snd (releaseIP e cfg \<lparr>net = k, trace = []\<rparr>)) \<and>
             release_calls (trace (snd (releaseIP e cfg \<lparr>net = k, trace = []\<rparr>))) = 1 \<and>
             list_all (\<lambda>c. \<not> coordination_call c)
               (trace (snd (releaseIP e cfg \<lparr>net = k, trace = []\<rparr>)))))
   \<and> (\<forall>k k'. main_start e cfg k' =
                (main_start e cfg k)\<lparr>world := world (main_start e cfg k')\<rparr>)"
proof (intro impI conjI)
  assume nv: "\<not> version cfg"
  define rest where "rest =
     (if \<not> tls_ok e then [TLSClientConfig, Fatal TLSError, OsExit 1]
      else if \<not> client_ok e
        then [TLSClientConfig, ClientNew (etcdaddress cfg), Fatal ClientError, OsExit 1]
      else if \<not> session_ok e
        then [TLSClientConfig, ClientNew (etcdaddress cfg), NewSession, Fatal SessionError,
              OsExit 1]
      else [TLSClientConfig, ClientNew (etcdaddress cfg), NewSession, NewElection (prefix cfg),
            SignalNotify])"
  have r0: "release_calls rest = 0" by (simp add: rest_def)
  have t: "trace (world (main_start e cfg k)) =
             trace (snd (releaseIP e cfg \<lparr>net = k, trace = []\<rparr>)) @ rest" for k
    using nv by (simp add: main_start_def Let_def rest_def log_Fatal_def)
  have n: "net (world (main_start e cfg k)) =
             net (snd (releaseIP e cfg \<lparr>net = k, trace = []\<rparr>))" for k
    using nv by (simp add: main_start_def Let_def log_Fatal_def)
  have c: "release_calls (trace (snd (releaseIP e cfg \<lparr>net = k, trace = []\<rparr>))) = 1 \<and>
           list_all (\<lambda>c. \<not> coordination_call c)
             (trace (snd (releaseIP e cfg \<lparr>net = k, trace = []\<rparr>)))" for k
  proof -
    obtain cs where "trace (snd (releaseIP e cfg \<lparr>net = k, trace = []\<rparr>)) =
        trace \<lparr>net = k, trace = []\<rparr> @ cs" "release_calls cs = 1" "list_all ip_call cs"
      by (rule releaseIP_trace_ex)
    then show ?thesis by (simp add: list_all_ip_not_coordination)
  qed
  from r0 t n c
  show "\<exists>rest. release_calls rest = 0 \<and>
        (\<forall>k. trace (world (main_start e cfg k)) =
                trace (snd (releaseIP e cfg \<lparr>net = k, trace = []\<rparr>)) @ rest \<and>
             net (world (main_start e cfg k)) =
                net (snd (releaseIP e cfg \<lparr>net = k, trace = []\<rparr>)) \<and>
             release_calls (trace (snd (releaseIP e cfg \<lparr>net = k, trace = []\<rparr>))) = 1 \<and>
             list_all (\<lambda>c. \<not> coordination_call c)
               (trace (snd (releaseIP e cfg \<lparr>net = k, trace = []\<rparr>))))"
    by (intro exI [of _ rest]) simp
  show "\<forall>k k'. main_start e cfg k' =
                (main_start e cfg k)\<lparr>world := world (main_start e cfg k')\<rparr>"
    using nv by (simp add: main_start_def Let_def log_Fatal_def)
qed

text \<open>
  The statement above on two hosts that hold the VIP: on one the removal succeeds, on
  the other it fails.
\<close>

theorem startup_release_witness:
  "\<not> version cfg0 \<and>
   fst (releaseIP env0 cfg0 \<lparr>net = kernel1, trace = []\<rparr>) = None \<and>
   fst (releaseIP env0 cfg0 \<lparr>net = kernel1\<lparr>del_fails := True\<rparr>, trace = []\<rparr>) = Some DelError \<and>
   status (main_start env0 cfg0 kernel1) = Running \<and>
   main_start env0 cfg0 (kernel1\<lparr>del_fails := True\<rparr>) =
     (main_start env0 cfg0 kernel1)
       \<lparr>world := world (main_start env0 cfg0 (kernel1\<lparr>del_fails := True\<rparr>))\<rparr> \<and>
   release_calls (trace (world (main_start env0 cfg0 (kernel1\<lparr>del_fails := True\<rparr>)))) = 1"
proof -
  have a: "\<not> version cfg0" by (simp add: cfg0_def)
  have b: "fst (releaseIP env0 cfg0 \<lparr>net = kernel1, trace = []\<rparr>) = None"
    "fst (releaseIP env0 cfg0 \<lparr>net = kernel1\<lparr>del_fails := True\<rparr>, trace = []\<rparr>) = Some DelError"
    "status (main_start env0 cfg0 kernel1) = Running"
    by (simp_all add: exec_defs host_defs)
  from startup_release [of cfg0 env0] a
  obtain rest where r: "release_calls rest = 0"
    "\<And>k. trace (world (main_start env0 cfg0 k)) =
            trace (snd (releaseIP env0 cfg0 \<lparr>net = k, trace = []\<rparr>)) @ rest"
    "\<And>k. release_calls (trace (snd (releaseIP env0 cfg0 \<lparr>net = k, trace = []\<rparr>))) = 1"
    and s: "\<And>k k'. main_start env0 cfg0 k' =
                (main_start env0 cfg0 k)\<lparr>world := world (main_start env0 cfg0 k')\<rparr>"
    by blast
  have "release_calls (trace (world (main_start env0 cfg0 (kernel1\<lparr>del_fails := True\<rparr>)))) = 1"
    using r by simp
  with a b s [of "kernel1\<lparr>del_fails := True\<rparr>" kernel1] show ?thesis by simp
qed

text \<open>
  C2, as the specification states it, does not hold: with the VIP "not-a-cidr" the
  startup release fails on the parse, nothing is reported, and the process goes on to
  create the client, open the session and the election and call Campaign.
\<close>

theorem invalid_vip_contacts_service:
  "ParseAddr env0 (vip cfg_bad) = None \<and>
   status (run env0 cfg_bad [TimerFires] (main_start env0 cfg_bad kernel0)) = Running \<and>
   trace (world (run env0 cfg_bad [TimerFires] (main_start env0 cfg_bad kernel0))) =
     [Log Debug ''Releasing IP address'', NlParseAddr ''not-a-cidr'', TLSClientConfig,
      ClientNew ''https://127.0.0.1:2379'', NewSession, NewElection ''/govip/'', SignalNotify,
      TimeAfter 5, Log Debug ''Waiting to become the leader'', Campaign ''hostname'']"
  by (simp add: exec_defs host_defs)

text \<open>
  C2, amended. With a VIP string that does not parse, the startup release fails and
  its error is dropped. Once the credentials load, the client is created and the
  session opens, the process is running, having contacted the coordination service
  and reported nothing. The parse error is reported at the first ensureIP, which
  runs only after a campaign was won: the process logs it and exits with code 1,
  leaving the address table as it was.
\<close>

theorem invalid_vip_reported_late:
  "ParseAddr e (vip cfg) = None \<and> \<not> version cfg \<longrightarrow>
     fst (releaseIP e cfg \<lparr>net = k, trace = []\<rparr>) = Some ParseError \<and>
     (tls_ok e \<and> client_ok e \<and> session_ok e \<longrightarrow>
        status (main_start e cfg k) = Running \<and>
        trace (world (main_start e cfg k)) =
          [Log Debug ''Releasing IP address'', NlParseAddr (vip cfg), TLSClientConfig,
           ClientNew (etcdaddress cfg), NewSession, NewElection (prefix cfg), SignalNotify]) \<and>
     (status p = Running \<and> ctl p = InCampaign \<longrightarrow>
        status (step e cfg (CampaignResolves Leader) p) = Exited 1 \<and>
        trace (world (step e cfg (CampaignResolves Leader) p)) =
          trace (world p) @
            [Log Debug ''I am the leader'', Log Debug ''Ensuring IP address'',
             NlParseAddr (vip cfg), Fatal ParseError, OsExit 1] \<and>
        net (world (step e cfg (CampaignResolves Leader) p)) = net (world p))"
proof (intro impI)
  assume a: "ParseAddr e (vip cfg) = None \<and> \<not> version cfg"
  then have pf: "ParseAddr e (vip cfg) = None" and nv: "\<not> version cfg" by simp_all
  note h = hasIP_parse_fails [OF pf]
  have rel: "fst (releaseIP e cfg w) = Some ParseError \<and>
             trace (snd (releaseIP e cfg w)) =
               trace w @ [Log Debug ''Releasing IP address'', NlParseAddr (vip cfg)]" for w
    using releaseIP_error [of e cfg w ParseError] h by simp
  have ens: "fst (ensureIP e cfg w) = (False, Some ParseError) \<and>
             net (snd (ensureIP e cfg w)) = net w \<and>
             trace (snd (ensureIP e cfg w)) =
               trace w @ [Log Debug ''Ensuring IP address'', NlParseAddr (vip cfg)]" for w
    using ensureIP_error [of e cfg w ParseError] h by simp
  have 1: "fst (releaseIP e cfg \<lparr>net = k, trace = []\<rparr>) = Some ParseError"
    using rel by simp
  have 2: "tls_ok e \<and> client_ok e \<and> session_ok e \<longrightarrow>
        status (main_start e cfg k) = Running \<and>
        trace (world (main_start e cfg k)) =
          [Log Debug ''Releasing IP address'', NlParseAddr (vip cfg), TLSClientConfig,
           ClientNew (etcdaddress cfg), NewSession, NewElection (prefix cfg), SignalNotify]"
    using nv rel [of "\<lparr>net = k, trace = []\<rparr>"] by (simp add: main_start_def Let_def)
  have 3: "status p = Running \<and> ctl p = InCampaign \<longrightarrow>
        status (step e cfg (CampaignResolves Leader) p) = Exited 1 \<and>
        trace (world (step e cfg (CampaignResolves Leader) p)) =
          trace (world p) @
            [Log Debug ''I am the leader'', Log Debug ''Ensuring IP address'',
             NlParseAddr (vip cfg), Fatal ParseError, OsExit 1] \<and>
        net (world (step e cfg (CampaignResolves Leader) p)) = net (world p)"
  proof
    assume b: "status p = Running \<and> ctl p = InCampaign"
    let ?w = "emit (Log Debug ''I am the leader'') (world p)"
    obtain r w1 where ew: "ensureIP e cfg ?w = (r, w1)" by (cases "ensureIP e cfg ?w")
    with ens [of ?w] have r: "r = (False, Some ParseError)" and n: "net w1 = net (world p)"
      and t: "trace w1 = trace (world p) @ [Log Debug ''I am the leader'',
                 Log Debug ''Ensuring IP address'', NlParseAddr (vip cfg)]"
      by simp_all
    from b ew r have "step e cfg (CampaignResolves Leader) p =
        log_Fatal ParseError (p\<lparr>world := w1\<rparr>)"
      by (simp add: step_def after_campaign_def)
    with n t show "status (step e cfg (CampaignResolves Leader) p) = Exited 1 \<and>
        trace (world (step e cfg (CampaignResolves Leader) p)) =
          trace (world p) @
            [Log Debug ''I am the leader'', Log Debug ''Ensuring IP address'',
             NlParseAddr (vip cfg), Fatal ParseError, OsExit 1] \<and>
        net (world (step e cfg (CampaignResolves Leader) p)) = net (world p)"
      by simp
  qed
  from 1 2 3 show "fst (releaseIP e cfg \<lparr>net = k, trace = []\<rparr>) = Some ParseError \<and>
     (tls_ok e \<and> client_ok e \<and> session_ok e \<longrightarrow>
        status (main_start e cfg k) = Running \<and>
        trace (world (main_start e cfg k)) =
          [Log Debug ''Releasing IP address'', NlParseAddr (vip cfg), TLSClientConfig,
           ClientNew (etcdaddress cfg), NewSession, NewElection (prefix cfg), SignalNotify]) \<and>
     (status p = Running \<and> ctl p = InCampaign \<longrightarrow>
        status (step e cfg (CampaignResolves Leader) p) = Exited 1 \<and>
        trace (world (step e cfg (CampaignResolves Leader) p)) =
          trace (world p) @
            [Log Debug ''I am the leader'', Log Debug ''Ensuring IP address'',
             NlParseAddr (vip cfg), Fatal ParseError, OsExit 1] \<and>
        net (world (step e cfg (CampaignResolves Leader) p)) = net (world p))"
    by blast
qed

text \<open>The statement above for the VIP "not-a-cidr", up to the first won campaign.\<close>

theorem invalid_vip_reported_late_witness:
  "ParseAddr env0 (vip cfg_bad) = None \<and> \<not> version cfg_bad \<and>
   tls_ok env0 \<and> client_ok env0 \<and> session_ok env0 \<and>
   status (main_start env0 cfg_bad kernel0) = Running \<and>
   status (step env0 cfg_bad TimerFires (main_start env0 cfg_bad kernel0)) = Running \<and>
   ctl (step env0 cfg_bad TimerFires (main_start env0 cfg_bad kernel0)) = InCampaign \<and>
   status (step env0 cfg_bad (CampaignResolves Leader)
             (step env0 cfg_bad TimerFires (main_start env0 cfg_bad kernel0))) = Exited 1"
proof -
  let ?p = "step env0 cfg_bad TimerFires (main_start env0 cfg_bad kernel0)"
  have a: "ParseAddr env0 (vip cfg_bad) = None" "\<not> version cfg_bad"
    "tls_ok env0" "client_ok env0" "session_ok env0"
    by (simp_all add: host_defs)
  have b: "status ?p = Running" "ctl ?p = InCampaign"
    by (simp_all add: exec_defs host_defs)
  show ?thesis
    using a b invalid_vip_reported_late [of env0 cfg_bad kernel0 ?p] by simp
qed

section \<open>Release obligations\<close>

lemma observed_present_net:
  "net w = net w' \<Longrightarrow> observed_present e cfg w = observed_present e cfg w'"
  using hasIP_fst_net [of w w' e cfg] by (simp add: observed_present_def)

lemma observed_present_iff:
  "observed_present e cfg w \<longleftrightarrow> (\<exists>va vl. fst (hasIP e cfg w) = Inr (True, va, vl))"
  by (auto simp: observed_present_def split: sum.splits)

lemma ensureIP_summary:
  "(snd (fst (ensureIP e cfg w)) \<noteq> None \<longrightarrow> net (snd (ensureIP e cfg w)) = net w)
   \<and> (snd (fst (ensureIP e cfg w)) = None \<and> \<not> fst (fst (ensureIP e cfg w)) \<longrightarrow>
        net (snd (ensureIP e cfg w)) = net w)
   \<and> (snd (fst (ensureIP e cfg w)) = None \<and> fst (fst (ensureIP e cfg w)) \<longrightarrow>
        \<not> observed_present e cfg w \<and> observed_present e cfg (snd (ensureIP e cfg w)))"
proof (cases "fst (hasIP e cfg w)")
  case (Inl err)
  from ensureIP_error [OF Inl] show ?thesis by simp
next
  case (Inr r)
  obtain b va vl where r: "r = (b, va, vl)" by (cases r)
  show ?thesis
  proof (cases b)
    case True
    with Inr r have h: "fst (hasIP e cfg w) = Inr (True, va, vl)" by simp
    from ensureIP_present [OF h] show ?thesis by simp
  next
    case False
    with Inr r have h: "fst (hasIP e cfg w) = Inr (False, va, vl)" by simp
    show ?thesis
    proof (cases "add_fails (net w)")
      case True
      from ensureIP_add_fails [OF h True] show ?thesis by simp
    next
      case nf: False
      have ok: "snd (fst (ensureIP e cfg w)) = None"
        using ensureIP_added [OF h nf] by simp
      from ensureIP_ok_present [OF ok]
      have "observed_present e cfg (snd (ensureIP e cfg w))"
        by (simp add: observed_present_iff)
      moreover from h have "\<not> observed_present e cfg w"
        by (simp add: observed_present_def)
      ultimately show ?thesis using ensureIP_added [OF h nf] by simp
    qed
  qed
qed

lemma after_campaign_Leader_single:
  assumes "single_obligation e cfg p"
  shows "single_obligation e cfg (after_campaign e cfg Leader p)"
proof -
  let ?w = "emit (Log Debug ''I am the leader'') (world p)"
  obtain res eo w1 where ew: "ensureIP e cfg ?w = ((res, eo), w1)"
    by (metis surj_pair)
  have pw: "observed_present e cfg ?w = observed_present e cfg (world p)"
    by (rule observed_present_net) simp
  note s = ensureIP_summary [of e cfg ?w]
  show ?thesis
  proof (cases eo)
    case (Some err)
    with ew s have n: "net w1 = net (world p)" by simp
    have "observed_present e cfg w1 = observed_present e cfg (world p)"
      by (rule observed_present_net) (rule n)
    moreover have "observed_present e cfg (emit (OsExit 1) (emit (Fatal err) w1))
        = observed_present e cfg w1"
      by (rule observed_present_net) simp
    ultimately show ?thesis using assms ew Some
      by (simp add: after_campaign_def single_obligation_def log_Fatal_def)
  next
    case None
    show ?thesis
    proof (cases res)
      case False
      with ew s None have n: "net w1 = net (world p)" by simp
      have "observed_present e cfg w1 = observed_present e cfg (world p)"
        by (rule observed_present_net) (rule n)
      then show ?thesis using assms ew None False
        by (simp add: after_campaign_def single_obligation_def)
    next
      case True
      with ew s None pw have a: "\<not> observed_present e cfg (world p)"
        and b: "observed_present e cfg w1" by simp_all
      from a assms have "defers p = 0" by (simp add: single_obligation_def)
      with b show ?thesis using ew None True
        by (simp add: after_campaign_def single_obligation_def)
    qed
  qed
qed

lemma step_single:
  assumes "\<not> is_extern ev" and "single_obligation e cfg p"
  shows "single_obligation e cfg (step e cfg ev p)"
proof (cases "status p = Running")
  case False
  with assms show ?thesis by (simp add: step_def)
next
  case True
  show ?thesis
  proof (cases ev)
    case Signal
    have "observed_present e cfg
            (emit CloseQuit (emit CtxCancel (emit (Log Info ''Received signal'') (world p))))
          = observed_present e cfg (world p)"
      by (rule observed_present_net) simp
    with assms True Signal show ?thesis
      by (simp add: step_def on_signal_def single_obligation_def)
  next
    case TimerFires
    have "observed_present e cfg
            (emit (Campaign (member cfg)) (emit (Log Debug ''Waiting to become the leader'')
               (emit (TimeAfter 5) (world p))))
          = observed_present e cfg (world p)"
      by (rule observed_present_net) simp
    with assms True TimerFires show ?thesis
      by (simp add: step_def single_obligation_def)
  next
    case QuitCase
    with assms True show ?thesis
      by (simp add: step_def single_obligation_def)
  next
    case (CampaignResolves r)
    show ?thesis
    proof (cases r)
      case Leader
      with assms True CampaignResolves after_campaign_Leader_single [of e cfg p]
      show ?thesis by (simp add: step_def)
    next
      case Canceled
      with assms True CampaignResolves show ?thesis
        by (simp add: step_def after_campaign_def single_obligation_def)
    next
      case Failed
      have "observed_present e cfg (world (log_Fatal CampaignError p))
          = observed_present e cfg (world p)"
        by (rule observed_present_net) simp
      with assms True CampaignResolves Failed show ?thesis
        by (simp add: step_def after_campaign_def single_obligation_def)
    qed
  next
    case (Extern f)
    with assms show ?thesis by simp
  qed
qed

lemma run_single:
  "list_all (\<lambda>ev. \<not> is_extern ev) evs \<Longrightarrow> single_obligation e cfg p \<Longrightarrow>
     single_obligation e cfg (run e cfg evs p)"
  by (induction evs arbitrary: p) (simp_all add: step_single)

lemma main_start_defers [simp]: "defers (main_start e cfg k) = 0"
  by (simp add: main_start_def Let_def)

text \<open>
  C1, as the specification states it, does not hold: the goroutine wins leadership and
  adds the address, another process removes the address, the goroutine confirms
  leadership again and adds the address again. Two \<open>defer releaseIP()\<close> are then
  pending, and on cancellation the goroutine calls releaseIP twice (the trace holds
  three calls, one of them from startup).
\<close>

theorem external_removal_stacks_obligations:
  "defers (run env0 cfg0
             [TimerFires, CampaignResolves Leader, Extern flush_addrs, TimerFires,
              CampaignResolves Leader]
             (main_start env0 cfg0 kernel0)) = 2 \<and>
   release_calls (trace (world (run env0 cfg0
             [TimerFires, CampaignResolves Leader, Extern flush_addrs, TimerFires,
              CampaignResolves Leader, Signal]
             (main_start env0 cfg0 kernel0)))) = 1 \<and>
   release_calls (trace (world (run env0 cfg0
             [TimerFires, CampaignResolves Leader, Extern flush_addrs, TimerFires,
              CampaignResolves Leader, Signal, QuitCase]
             (main_start env0 cfg0 kernel0)))) = 3 \<and>
   status (run env0 cfg0
             [TimerFires, CampaignResolves Leader, Extern flush_addrs, TimerFires,
              CampaignResolves Leader, Signal, QuitCase]
             (main_start env0 cfg0 kernel0)) = Exited 0"
  by (simp add: exec_defs host_defs)

text \<open>
  C1, amended. As long as nothing outside the process changes the kernel's network
  configuration, at most one release obligation is pending at any point of a run.
  A leadership confirmation that finds the address present schedules no obligation;
  one that adds the address schedules exactly one more. When the goroutine returns on
  cancellation (through \<open><-quit\<close> or through a cancelled campaign) it makes exactly
  as many releaseIP calls as obligations are pending, all before the session is closed
  and completion is signalled: one if it added the address once, none if it never did.
\<close>

theorem release_obligations:
  "(list_all (\<lambda>ev. \<not> is_extern ev) evs \<longrightarrow> defers (run e cfg evs (main_start e cfg k)) \<le> 1)
   \<and> (status p = Running \<and> ctl p = InCampaign \<and>
        fst (hasIP e cfg (world p)) = Inr (True, va, vl) \<longrightarrow>
        defers (step e cfg (CampaignResolves Leader) p) = defers p)
   \<and> (status p = Running \<and> ctl p = InCampaign \<and>
        fst (hasIP e cfg (world p)) = Inr (False, va, vl) \<and> \<not> add_fails (net (world p)) \<longrightarrow>
        defers (step e cfg (CampaignResolves Leader) p) = defers p + 1)
   \<and> (status p = Running \<and>
        (ev = QuitCase \<and> ctl p = AtSelect \<and> quit_closed p \<or>
         ev = CampaignResolves Canceled \<and> ctl p = InCampaign \<and> cancelled p) \<longrightarrow>
        (\<exists>cs. trace (world (step e cfg ev p)) =
                trace (world p) @ cs @
                  [SessionClose, ExitSend 0, ClientClose, Log Info ''Exiting with code: 0'',
                   OsExit 0]
              \<and> release_calls cs = defers p))"
proof (intro conjI impI)
  assume "list_all (\<lambda>ev. \<not> is_extern ev) evs"
  moreover have "single_obligation e cfg (main_start e cfg k)"
    by (simp add: single_obligation_def)
  ultimately have "single_obligation e cfg (run e cfg evs (main_start e cfg k))"
    by (rule run_single)
  then show "defers (run e cfg evs (main_start e cfg k)) \<le> 1"
    by (auto simp: single_obligation_def)
next
  assume a: "status p = Running \<and> ctl p = InCampaign \<and>
        fst (hasIP e cfg (world p)) = Inr (True, va, vl)"
  let ?w = "emit (Log Debug ''I am the leader'') (world p)"
  have "fst (hasIP e cfg ?w) = fst (hasIP e cfg (world p))"
    by (rule hasIP_fst_net) simp
  with a have h: "fst (hasIP e cfg ?w) = Inr (True, va, vl)" by simp
  obtain r w1 where ew: "ensureIP e cfg ?w = (r, w1)" by (cases "ensureIP e cfg ?w")
  with ensureIP_present [OF h] have "r = (False, None)" by simp
  with a ew show "defers (step e cfg (CampaignResolves Leader) p) = defers p"
    by (simp add: step_def after_campaign_def)
next
  assume a: "status p = Running \<and> ctl p = InCampaign \<and>
        fst (hasIP e cfg (world p)) = Inr (False, va, vl) \<and> \<not> add_fails (net (world p))"
  let ?w = "emit (Log Debug ''I am the leader'') (world p)"
  have "fst (hasIP e cfg ?w) = fst (hasIP e cfg (world p))"
    by (rule hasIP_fst_net) simp
  with a have h: "fst (hasIP e cfg ?w) = Inr (False, va, vl)" by simp
  from a have nf: "\<not> add_fails (net ?w)" by simp
  obtain r w1 where ew: "ensureIP e cfg ?w = (r, w1)" by (cases "ensureIP e cfg ?w")
  with ensureIP_added [OF h nf] have "r = (True, None)" by simp
  with a ew show "defers (step e cfg (CampaignResolves Leader) p) = defers p + 1"
    by (simp add: step_def after_campaign_def)
next
  assume a: "status p = Running \<and>
        (ev = QuitCase \<and> ctl p = AtSelect \<and> quit_closed p \<or>
         ev = CampaignResolves Canceled \<and> ctl p = InCampaign \<and> cancelled p)"
  then have "step e cfg ev p = goroutine_return e cfg p"
    by (auto simp: step_def after_campaign_def)
  with goroutine_return_trace [of e cfg p]
  show "\<exists>cs. trace (world (step e cfg ev p)) =
                trace (world p) @ cs @
                  [SessionClose, ExitSend 0, ClientClose, Log Info ''Exiting with code: 0'',
                   OsExit 0]
              \<and> release_calls cs = defers p"
    by auto
qed

text \<open>
  The statement above on the host without the VIP: two leadership confirmations and
  a termination signal leave one obligation pending, and the goroutine's return makes
  one release call beside the one of startup.
\<close>

theorem release_obligations_witness:
  "list_all (\<lambda>ev. \<not> is_extern ev)
     [TimerFires, CampaignResolves Leader, TimerFires, CampaignResolves Leader, Signal] \<and>
   defers (run env0 cfg0
     [TimerFires, CampaignResolves Leader, TimerFires, CampaignResolves Leader, Signal]
     (main_start env0 cfg0 kernel0)) = 1 \<and>
   defers (run env0 cfg0
     [TimerFires, CampaignResolves Leader, TimerFires, CampaignResolves Leader, Signal]
     (main_start env0 cfg0 kernel0)) \<le> 1 \<and>
   status (run env0 cfg0 [TimerFires] (main_start env0 cfg0 kernel0)) = Running \<and>
   ctl (run env0 cfg0 [TimerFires] (main_start env0 cfg0 kernel0)) = InCampaign \<and>
   fst (hasIP env0 cfg0 (world (run env0 cfg0 [TimerFires] (main_start env0 cfg0 kernel0))))
     = Inr (False, vip0, 2) \<and>
   defers (step env0 cfg0 (CampaignResolves Leader)
     (run env0 cfg0 [TimerFires] (main_start env0 cfg0 kernel0))) = 1 \<and>
   status (run env0 cfg0 [TimerFires] (main_start env0 cfg0 kernel1)) = Running \<and>
   ctl (run env0 cfg0 [TimerFires] (main_start env0 cfg0 kernel1)) = InCampaign \<and>
   release_calls (trace (world (run env0 cfg0
     [TimerFires, CampaignResolves Leader, TimerFires, CampaignResolves Leader, Signal, QuitCase]
     (main_start env0 cfg0 kernel0)))) = 2"
proof -
  let ?evs = "[TimerFires, CampaignResolves Leader, TimerFires, CampaignResolves Leader, Signal]"
  let ?p = "run env0 cfg0 [TimerFires] (main_start env0 cfg0 kernel0)"
  have a: "list_all (\<lambda>ev. \<not> is_extern ev) ?evs" by simp
  have b: "defers (run env0 cfg0 ?evs (main_start env0 cfg0 kernel0)) = 1"
    "status ?p = Running" "ctl ?p = InCampaign"
    "fst (hasIP env0 cfg0 (world ?p)) = Inr (False, vip0, 2)"
    "\<not> add_fails (net (world ?p))" "defers ?p = 0"
    "status (run env0 cfg0 [TimerFires] (main_start env0 cfg0 kernel1)) = Running"
    "ctl (run env0 cfg0 [TimerFires] (main_start env0 cfg0 kernel1)) = InCampaign"
    "release_calls (trace (world (run env0 cfg0
       [TimerFires, CampaignResolves Leader, TimerFires, CampaignResolves Leader, Signal, QuitCase]
       (main_start env0 cfg0 kernel0)))) = 2"
    by (simp_all add: exec_defs host_defs)
  show ?thesis
    using a b release_obligations [of ?evs env0 cfg0 kernel0 ?p vip0 2 QuitCase]
    by simp
qed

section \<open>Shutdown\<close>












end
